theory Spec2Isabelle
  imports Complex_Main "HOL-Library.Word"
begin

section \<open>Values, errors and arrays\<close>

text \<open>
  The generator script \<^verbatim>\<open>scripts/generate-marble-textures.py\<close> computes on numpy
  arrays of float64 and of uint8. A float64 is modelled as an exact real number or one of
  the three special values that numpy's division produces; rounding is not modelled.
  A uint8 is an 8-bit word, so that its arithmetic wraps as numpy's does.
  A two-dimensional array is the list of its rows. \<open>ValueError\<close> is the Python exception;
  \<open>Undefined_cast\<close> is not an exception: it marks a conversion of a float64 to uint8
  whose value C leaves undefined (a NaN, an infinity or a number outside the range).
\<close>

datatype py_error = ValueError | Undefined_cast

datatype f64 = Fin real | PosInf | NegInf | NaN

type_synonym 'a grid = "'a list list"

definition ncols :: "'a grid \<Rightarrow> nat" where
  "ncols a = (case a of [] \<Rightarrow> 0 | r # _ \<Rightarrow> length r)"

text \<open>Python's \<^verbatim>\<open>int(x)\<close> on a float: truncation towards zero.\<close>

definition py_int :: "real \<Rightarrow> int" where
  "py_int x = (if 0 \<le> x then \<lfloor>x\<rfloor> else \<lceil>x\<rceil>)"

section \<open>The numpy and scipy functions the synthesizer calls\<close>

text \<open>
  The pseudo-random generator of \<^verbatim>\<open>numpy.random\<close> and the spline interpolation of
  \<^verbatim>\<open>scipy.ndimage.zoom\<close> are not part of the repository; they are parameters of the
  model. \<open>random_seed n\<close> is the generator state that \<^verbatim>\<open>np.random.seed(n)\<close> installs,
  \<open>random_sample st k\<close> is the \<open>k\<close>-th number drawn from state \<open>st\<close>, and
  \<open>random_skip st n\<close> is the state after \<open>n\<close> draws. \<open>spline_zoom a z order mode i j\<close>
  is the value that zooming \<open>a\<close> by the factor \<open>z\<close> puts at row \<open>i\<close>, column \<open>j\<close>.
  The shapes of the results are those the libraries document:
  \<^verbatim>\<open>rand(r, c)\<close> has \<open>r\<close> rows and \<open>c\<close> columns, and \<^verbatim>\<open>zoom\<close> multiplies each
  dimension by the zoom factor.
\<close>

datatype boundary = Reflect | Grid_Mirror | Constant | Grid_Constant | Nearest | Mirror
  | Grid_Wrap | Wrap

record 's numpy =
  random_seed :: "nat \<Rightarrow> 's"
  random_sample :: "'s \<Rightarrow> nat \<Rightarrow> real"
  random_skip :: "'s \<Rightarrow> nat \<Rightarrow> 's"
  spline_zoom :: "real grid \<Rightarrow> nat \<Rightarrow> nat \<Rightarrow> boundary \<Rightarrow> nat \<Rightarrow> nat \<Rightarrow> real"

definition np_random_rand :: "'s numpy \<Rightarrow> 's \<Rightarrow> int \<Rightarrow> int \<Rightarrow> py_error + (real grid \<times> 's)" where
  "np_random_rand np st r c =
     (if r < 0 \<or> c < 0 then Inl ValueError
      else Inr (map (\<lambda>i. map (\<lambda>j. random_sample np st (i * nat c + j)) [0..<nat c]) [0..<nat r],
                random_skip np st (nat r * nat c)))"

definition ndimage_zoom :: "'s numpy \<Rightarrow> real grid \<Rightarrow> nat \<Rightarrow> nat \<Rightarrow> boundary \<Rightarrow> real grid" where
  "ndimage_zoom np a z order mode =
     map (\<lambda>i. map (\<lambda>j. spline_zoom np a z order mode i j) [0..<ncols a * z]) [0..<length a * z]"

text \<open>\<^verbatim>\<open>np.linspace(start, stop, num, endpoint=False)\<close>; a negative \<open>num\<close> raises.\<close>

definition np_linspace :: "real \<Rightarrow> real \<Rightarrow> int \<Rightarrow> py_error + real list" where
  "np_linspace start stop num =
     (if num < 0 then Inl ValueError
      else Inr (map (\<lambda>i. start + real i * ((stop - start) / real_of_int num)) [0..<nat num]))"

text \<open>\<^verbatim>\<open>np.zeros((height, width))\<close>; a negative dimension raises.\<close>

definition np_zeros :: "int \<Rightarrow> int \<Rightarrow> py_error + real grid" where
  "np_zeros height width =
     (if height < 0 \<or> width < 0 then Inl ValueError
      else Inr (replicate (nat height) (replicate (nat width) 0)))"

text \<open>The slice \<^verbatim>\<open>a[:height, :width]\<close>, for non-negative bounds.\<close>

definition crop :: "int \<Rightarrow> int \<Rightarrow> 'a grid \<Rightarrow> 'a grid" where
  "crop height width a = map (take (nat width)) (take (nat height) a)"

text \<open>
  \<^verbatim>\<open>noise += layer * amp\<close>. The in-place addition needs the right operand in the shape of
  the left one; numpy raises ValueError otherwise.
\<close>

definition np_iadd_scaled :: "real grid \<Rightarrow> real grid \<Rightarrow> real \<Rightarrow> py_error + real grid" where
  "np_iadd_scaled noise layer amp =
     (if map length layer = map length noise
      then Inr (map2 (map2 (\<lambda>n l. n + l * amp)) noise layer)
      else Inl ValueError)"

text \<open>\<^verbatim>\<open>a.min()\<close> and \<^verbatim>\<open>a.max()\<close>: an array with no element raises ValueError.\<close>

definition np_min :: "real grid \<Rightarrow> py_error + real" where
  "np_min a = (case concat a of [] \<Rightarrow> Inl ValueError | v # vs \<Rightarrow> Inr (fold min vs v))"

definition np_max :: "real grid \<Rightarrow> py_error + real" where
  "np_max a = (case concat a of [] \<Rightarrow> Inl ValueError | v # vs \<Rightarrow> Inr (fold max vs v))"

text \<open>
  Division of float64 values in an array expression: a zero divisor raises nothing
  (numpy only warns) and gives NaN for 0/0 and an infinity otherwise.
\<close>

definition true_divide :: "real \<Rightarrow> real \<Rightarrow> f64" where
  "true_divide a b =
     (if b = 0 then (if a = 0 then NaN else if 0 < a then PosInf else NegInf)
      else Fin (a / b))"

section \<open>The noise synthesizer\<close>

text \<open>One pass of the octave loop (lines 23 to 35 of the script).\<close>

definition octave_step :: "'s numpy \<Rightarrow> int \<Rightarrow> int \<Rightarrow> real grid \<Rightarrow> nat \<Rightarrow> py_error + (real grid \<times> 's)" where
  "octave_step np width height noise octave =
     (let freq = (2::nat) ^ octave;
          amp = 1 / real freq;
          st = random_seed np (octave + 42)
      in case np_random_rand np st (py_int (real_of_int height / real freq) + 2)
                (py_int (real_of_int width / real freq) + 2) of
           Inl e \<Rightarrow> Inl e
         | Inr (noise_layer, st') \<Rightarrow>
             (let noise_layer_resized = crop height width (ndimage_zoom np noise_layer freq 3 Wrap)
              in case np_iadd_scaled noise noise_layer_resized amp of
                   Inl e \<Rightarrow> Inl e
                 | Inr noise' \<Rightarrow> Inr (noise', st')))"

fun octave_loop :: "'s numpy \<Rightarrow> int \<Rightarrow> int \<Rightarrow> nat list \<Rightarrow> real grid \<Rightarrow> 's \<Rightarrow> py_error + (real grid \<times> 's)" where
  "octave_loop np width height [] noise st = Inr (noise, st)"
| "octave_loop np width height (octave # rest) noise st =
     (case octave_step np width height noise octave of
        Inl e \<Rightarrow> Inl e
      | Inr (noise', st') \<Rightarrow> octave_loop np width height rest noise' st')"

text \<open>The rescaling of line 38.\<close>

definition normalize :: "real grid \<Rightarrow> py_error + f64 grid" where
  "normalize noise =
     (case np_min noise of
        Inl e \<Rightarrow> Inl e
      | Inr lo \<Rightarrow>
          (case np_max noise of
             Inl e \<Rightarrow> Inl e
           | Inr hi \<Rightarrow> Inr (map (map (\<lambda>v. true_divide (v - lo) (hi - lo))) noise)))"

text \<open>
  The field before the rescaling: the coordinate arrays, the zero field and the six
  octaves (lines 15 to 35). \<open>st\<close> is the state of numpy's global generator when the
  function is called; the state it leaves is returned with the field.
\<close>

definition octave_sum :: "'s numpy \<Rightarrow> 's \<Rightarrow> int \<Rightarrow> int \<Rightarrow> real \<Rightarrow> py_error + (real grid \<times> 's)" where
  "octave_sum np st width height scale =
     (case np_linspace 0 scale width of
        Inl e \<Rightarrow> Inl e
      | Inr x \<Rightarrow>
          (case np_linspace 0 scale height of
             Inl e \<Rightarrow> Inl e
           | Inr y \<Rightarrow>
               (case np_zeros height width of
                  Inl e \<Rightarrow> Inl e
                | Inr noise \<Rightarrow> octave_loop np width height [0..<6] noise st)))"

definition create_seamless_noise :: "'s numpy \<Rightarrow> 's \<Rightarrow> int \<Rightarrow> int \<Rightarrow> real \<Rightarrow> py_error + (f64 grid \<times> 's)" where
  "create_seamless_noise np st width height scale =
     (case octave_sum np st width height scale of
        Inl e \<Rightarrow> Inl e
      | Inr (noise, st') \<Rightarrow>
          (case normalize noise of
             Inl e \<Rightarrow> Inl e
           | Inr noise' \<Rightarrow> Inr (noise', st')))"

text \<open>
  The sum of octaves as the specification words it: octave \<open>o\<close> draws a grid of
  \<open>height div 2^o + 2\<close> rows and \<open>width div 2^o + 2\<close> columns from the generator seeded
  with \<open>o + 42\<close>, upsamples it by the factor \<open>2^o\<close> with cubic splines and wrapped
  boundaries, and adds it with weight \<open>1 / 2^o\<close>.
\<close>

definition tabulate2 :: "nat \<Rightarrow> nat \<Rightarrow> (nat \<Rightarrow> nat \<Rightarrow> 'a) \<Rightarrow> 'a grid" where
  "tabulate2 rows cols f = map (\<lambda>i. map (\<lambda>j. f i j) [0..<cols]) [0..<rows]"

definition octave_grid :: "'s numpy \<Rightarrow> int \<Rightarrow> int \<Rightarrow> nat \<Rightarrow> real grid" where
  "octave_grid np width height octave =
     tabulate2 (nat (height div 2 ^ octave) + 2) (nat (width div 2 ^ octave) + 2)
       (\<lambda>i j. random_sample np (random_seed np (octave + 42)) (i * (nat (width div 2 ^ octave) + 2) + j))"

definition octave_state :: "'s numpy \<Rightarrow> int \<Rightarrow> int \<Rightarrow> nat \<Rightarrow> 's" where
  "octave_state np width height octave =
     random_skip np (random_seed np (octave + 42))
       ((nat (height div 2 ^ octave) + 2) * (nat (width div 2 ^ octave) + 2))"

definition octave_layer :: "'s numpy \<Rightarrow> int \<Rightarrow> int \<Rightarrow> nat \<Rightarrow> nat \<Rightarrow> nat \<Rightarrow> real" where
  "octave_layer np width height octave i j =
     spline_zoom np (octave_grid np width height octave) (2 ^ octave) 3 Wrap i j"

definition six_octaves :: "'s numpy \<Rightarrow> int \<Rightarrow> int \<Rightarrow> real grid" where
  "six_octaves np width height =
     tabulate2 (nat height) (nat width)
       (\<lambda>i j. \<Sum>octave\<leftarrow>[0..<6]. octave_layer np width height octave i j * (1 / 2 ^ octave))"

section \<open>The vein painter\<close>

text \<open>
  Python's \<^verbatim>\<open>random\<close> module is a second generator, never seeded by the script. Its
  output is a parameter: \<open>draws k\<close> is the \<open>k\<close>-th number of the unit interval that the
  generator yields, and the position \<open>k\<close> is the state that is passed along.
  \<^verbatim>\<open>random.uniform(a, b)\<close> is \<open>a + (b - a) * u\<close> for the next number \<open>u\<close>, as in
  the library; \<^verbatim>\<open>random.randint(a, b)\<close> raises ValueError on an empty range and is
  otherwise modelled as \<open>a + \<lfloor>u * (b - a + 1)\<rfloor>\<close>.
\<close>

definition random_uniform :: "(nat \<Rightarrow> real) \<Rightarrow> nat \<Rightarrow> real \<Rightarrow> real \<Rightarrow> real \<times> nat" where
  "random_uniform draws k a b = (a + (b - a) * draws k, Suc k)"

definition random_randint :: "(nat \<Rightarrow> real) \<Rightarrow> nat \<Rightarrow> int \<Rightarrow> int \<Rightarrow> py_error + (int \<times> nat)" where
  "random_randint draws k a b =
     (if b < a then Inl ValueError
      else Inr (a + \<lfloor>draws k * real_of_int (b - a + 1)\<rfloor>, Suc k))"

definition unit_draws :: "(nat \<Rightarrow> real) \<Rightarrow> bool" where
  "unit_draws draws = (\<forall>k. 0 \<le> draws k \<and> draws k < 1)"

text \<open>
  The random walk of one vein (lines 57 to 63). The loop may run forever for numbers
  outside the unit interval, so not returning is the value \<open>None\<close>.
\<close>

partial_function (option) walk ::
  "(nat \<Rightarrow> real) \<Rightarrow> int \<Rightarrow> int \<Rightarrow> real \<Rightarrow> real \<Rightarrow> real \<Rightarrow> (int \<times> int) list \<Rightarrow> nat
    \<Rightarrow> ((int \<times> int) list \<times> nat) option" where
  "walk draws width height x y angle points k =
     (if x < real_of_int (width + width div 4) \<and> 0 \<le> y \<and> y < real_of_int height
      then
        (let points' = points @ [(py_int x, py_int y)];
             (angle_step, k1) = random_uniform draws k (- 0.15) 0.15;
             angle' = angle + angle_step;
             (x_step, k2) = random_uniform draws k1 15 35;
             x' = x + x_step;
             (y_step, k3) = random_uniform draws k2 10 30;
             y' = y + sin angle' * y_step
         in walk draws width height x' y' angle' points' k3)
      else Some (points, k))"

text \<open>The start point, the start angle and the walk (lines 49 to 63).\<close>

definition vein_path :: "(nat \<Rightarrow> real) \<Rightarrow> int \<Rightarrow> int \<Rightarrow> nat \<Rightarrow> (py_error + ((int \<times> int) list \<times> nat)) option" where
  "vein_path draws width height k =
     (case random_randint draws k ((- width) div 4) (width + width div 4) of
        Inl e \<Rightarrow> Some (Inl e)
      | Inr (start_x, k1) \<Rightarrow>
          (case random_randint draws k1 0 height of
             Inl e \<Rightarrow> Some (Inl e)
           | Inr (start_y, k2) \<Rightarrow>
               (let (angle, k3) = random_uniform draws k2 (- 0.5) 0.5
                in map_option Inr
                     (walk draws width height (real_of_int start_x) (real_of_int start_y) angle [] k3))))"

text \<open>
  One call of \<^verbatim>\<open>draw.line(points, fill=vein_color, width=thickness)\<close>: the polyline, the
  colour with its opacity as fourth component, and the width.
\<close>

record stroke =
  xy :: "(int \<times> int) list"
  fill :: "int \<times> int \<times> int \<times> int"
  stroke_width :: int

text \<open>
  The body of the loop over the veins (lines 48 to 70), up to the call of
  \<^verbatim>\<open>draw.line\<close>: the stroke to draw, or \<open>None\<close> when the vein is discarded.
\<close>

definition vein :: "(nat \<Rightarrow> real) \<Rightarrow> int \<times> int \<times> int \<Rightarrow> int \<times> int \<Rightarrow> int \<Rightarrow> int \<Rightarrow> nat
    \<Rightarrow> (py_error + (stroke option \<times> nat)) option" where
  "vein draws color thickness_range width height k =
     (case vein_path draws width height k of
        None \<Rightarrow> None
      | Some (Inl e) \<Rightarrow> Some (Inl e)
      | Some (Inr (points, k1)) \<Rightarrow>
          (if length points > 1
           then
             (case random_randint draws k1 (fst thickness_range) (snd thickness_range) of
                Inl e \<Rightarrow> Some (Inl e)
              | Inr (thickness, k2) \<Rightarrow>
                  (case random_randint draws k2 30 120 of
                     Inl e \<Rightarrow> Some (Inl e)
                   | Inr (opacity, k3) \<Rightarrow>
                       (case color of
                          (r, g, b) \<Rightarrow>
                            Some (Inr (Some \<lparr>xy = points, fill = (r, g, b, opacity),
                                             stroke_width = thickness\<rparr>, k3)))))
           else Some (Inr (None, k1))))"

text \<open>
  Image buffers. The painter is handed a float64 array by its first call in a preset and
  the uint8 array it returned by the next one, so an array carries its element type.
  A PIL image in mode RGB is a grid of 8-bit pixels; its drawing and blurring routines
  are parameters. \<open>draw_line pil mode img s\<close> is the image that
  \<^verbatim>\<open>ImageDraw.Draw(img, mode).line(xy, fill, width)\<close> leaves: PIL joins each point of
  \<open>xy\<close> to the next one by a segment of the given width, and in the mode \<open>RGBA\<close> it
  blends the colour, by its alpha, into the pixels that are already there.
\<close>

type_synonym 'a rgb = "'a \<times> 'a \<times> 'a"

datatype ndarray = Float64 "f64 rgb grid" | UInt8 "8 word rgb grid"

type_synonym image = "8 word rgb grid"

datatype draw_mode = RGB | RGBA

record pil =
  draw_line :: "draw_mode \<Rightarrow> image \<Rightarrow> stroke \<Rightarrow> image"
  gaussian_blur :: "image \<Rightarrow> real \<Rightarrow> image"

definition map_rgb :: "('a \<Rightarrow> 'b) \<Rightarrow> 'a rgb \<Rightarrow> 'b rgb" where
  "map_rgb f p = (case p of (r, g, b) \<Rightarrow> (f r, f g, f b))"

text \<open>
  Products and sums of float64 values are exact here, where numpy rounds them to the
  nearest float64: the theorems about the painter and the presets state nothing that
  depends on the rounding.
\<close>

fun f64_scale :: "f64 \<Rightarrow> real \<Rightarrow> f64" where
  "f64_scale (Fin v) c = Fin (v * c)"
| "f64_scale PosInf c = (if 0 < c then PosInf else if c < 0 then NegInf else NaN)"
| "f64_scale NegInf c = (if 0 < c then NegInf else if c < 0 then PosInf else NaN)"
| "f64_scale NaN c = NaN"

fun f64_add :: "f64 \<Rightarrow> f64 \<Rightarrow> f64" where
  "f64_add (Fin a) (Fin b) = Fin (a + b)"
| "f64_add NaN b = NaN"
| "f64_add a NaN = NaN"
| "f64_add PosInf NegInf = NaN"
| "f64_add NegInf PosInf = NaN"
| "f64_add PosInf b = PosInf"
| "f64_add NegInf b = NegInf"
| "f64_add a PosInf = PosInf"
| "f64_add a NegInf = NegInf"

text \<open>\<^verbatim>\<open>np.clip(x, 0, 1)\<close> on one float64.\<close>

fun f64_clip01 :: "f64 \<Rightarrow> f64" where
  "f64_clip01 (Fin v) = Fin (min (max v 0) 1)"
| "f64_clip01 PosInf = Fin 1"
| "f64_clip01 NegInf = Fin 0"
| "f64_clip01 NaN = NaN"

text \<open>
  \<^verbatim>\<open>astype(np.uint8)\<close> on one float64: truncation where the result fits. Elsewhere
  numpy raises nothing and returns a byte that depends on the platform; the model stops
  there with \<open>Undefined_cast\<close> and no theorem reaches such an input.
\<close>

fun f64_to_uint8 :: "f64 \<Rightarrow> py_error + 8 word" where
  "f64_to_uint8 (Fin v) =
     (if - 1 < v \<and> v < 256 then Inr (word_of_int (py_int v)) else Inl Undefined_cast)"
| "f64_to_uint8 PosInf = Inl Undefined_cast"
| "f64_to_uint8 NegInf = Inl Undefined_cast"
| "f64_to_uint8 NaN = Inl Undefined_cast"

fun sequence :: "('e + 'a) list \<Rightarrow> 'e + 'a list" where
  "sequence [] = Inr []"
| "sequence (x # xs) =
     (case x of
        Inl e \<Rightarrow> Inl e
      | Inr v \<Rightarrow> (case sequence xs of Inl e \<Rightarrow> Inl e | Inr vs \<Rightarrow> Inr (v # vs)))"

definition rgb_to_uint8 :: "f64 rgb \<Rightarrow> py_error + 8 word rgb" where
  "rgb_to_uint8 p =
     (case p of
        (r, g, b) \<Rightarrow>
          (case f64_to_uint8 r of
             Inl e \<Rightarrow> Inl e
           | Inr r' \<Rightarrow>
               (case f64_to_uint8 g of
                  Inl e \<Rightarrow> Inl e
                | Inr g' \<Rightarrow>
                    (case f64_to_uint8 b of Inl e \<Rightarrow> Inl e | Inr b' \<Rightarrow> Inr (r', g', b')))))"

text \<open>
  \<^verbatim>\<open>a * 255\<close>: a float64 array is scaled; a uint8 array stays uint8 and the product wraps
  modulo 256.
\<close>

fun times255 :: "ndarray \<Rightarrow> ndarray" where
  "times255 (Float64 a) = Float64 (map (map (map_rgb (\<lambda>v. f64_scale v 255))) a)"
| "times255 (UInt8 a) = UInt8 (map (map (map_rgb (\<lambda>v. v * 255))) a)"

fun astype_uint8 :: "ndarray \<Rightarrow> py_error + image" where
  "astype_uint8 (Float64 a) = sequence (map (\<lambda>row. sequence (map rgb_to_uint8 row)) a)"
| "astype_uint8 (UInt8 a) = Inr a"

text \<open>\<^verbatim>\<open>np.clip(a, 0, 1)\<close> keeps the element type of its argument.\<close>

fun np_clip01 :: "ndarray \<Rightarrow> ndarray" where
  "np_clip01 (Float64 a) = Float64 (map (map (map_rgb f64_clip01)) a)"
| "np_clip01 (UInt8 a) = UInt8 (map (map (map_rgb (\<lambda>v. min (max v 0) 1))) a)"

fun shape :: "ndarray \<Rightarrow> int \<times> int" where
  "shape (Float64 a) = (int (length a), int (ncols a))"
| "shape (UInt8 a) = (int (length a), int (ncols a))"

text \<open>
  The loop over the veins (line 47), drawing with \<open>draw\<close>, the drawing context of
  line 45, on the PIL image.
\<close>

fun veins_loop :: "(image \<Rightarrow> stroke \<Rightarrow> image) \<Rightarrow> (nat \<Rightarrow> real) \<Rightarrow> int \<times> int \<times> int \<Rightarrow> int \<times> int
    \<Rightarrow> int \<Rightarrow> int \<Rightarrow> nat \<Rightarrow> image \<Rightarrow> nat \<Rightarrow> (py_error + (image \<times> nat)) option" where
  "veins_loop draw draws color thickness_range width height 0 img k = Some (Inr (img, k))"
| "veins_loop draw draws color thickness_range width height (Suc n) img k =
     (case vein draws color thickness_range width height k of
        None \<Rightarrow> None
      | Some (Inl e) \<Rightarrow> Some (Inl e)
      | Some (Inr (None, k')) \<Rightarrow>
          veins_loop draw draws color thickness_range width height n img k'
      | Some (Inr (Some s, k')) \<Rightarrow>
          veins_loop draw draws color thickness_range width height n (draw img s) k')"

text \<open>
  \<^verbatim>\<open>add_veins\<close> (lines 41 to 72): the conversion of the array to an 8-bit PIL image,
  the drawing context in the mode \<open>RGBA\<close>, the loop, and the array of the image.
\<close>

definition add_veins :: "pil \<Rightarrow> (nat \<Rightarrow> real) \<Rightarrow> nat \<Rightarrow> ndarray
    \<Rightarrow> int \<times> int \<times> int \<Rightarrow> int \<Rightarrow> int \<times> int \<Rightarrow> (py_error + (ndarray \<times> nat)) option" where
  "add_veins pil draws k img_array color num_veins thickness_range =
     (case shape img_array of
        (height, width) \<Rightarrow>
          (case astype_uint8 (times255 img_array) of
             Inl e \<Rightarrow> Some (Inl e)
           | Inr img \<Rightarrow>
               (let draw = draw_line pil RGBA
                in case veins_loop draw draws color thickness_range width height (nat num_veins) img k of
                     None \<Rightarrow> None
                   | Some (Inl e) \<Rightarrow> Some (Inl e)
                   | Some (Inr (img', k')) \<Rightarrow> Some (Inr (UInt8 img', k')))))"

section \<open>The presets\<close>

text \<open>
  \<^verbatim>\<open>np.ones((size, size, 3)) * np.array([r, g, b])\<close>, and
  \<^verbatim>\<open>base += np.stack([noise * amp] * 3, axis=2)\<close>, which needs the two arrays in the
  same shape.
\<close>

definition np_full_rgb :: "int \<Rightarrow> real rgb \<Rightarrow> py_error + f64 rgb grid" where
  "np_full_rgb size' c =
     (if size' < 0 then Inl ValueError
      else Inr (replicate (nat size') (replicate (nat size') (map_rgb Fin c))))"

definition add_texture :: "f64 rgb grid \<Rightarrow> f64 grid \<Rightarrow> real \<Rightarrow> py_error + f64 rgb grid" where
  "add_texture base noise amp =
     (if map length noise = map length base
      then Inr (map2 (map2 (\<lambda>p n. map_rgb (\<lambda>c. f64_add c (f64_scale n amp)) p)) base noise)
      else Inl ValueError)"

text \<open>
  \<^verbatim>\<open>generate_statuario\<close> (lines 143 to 162) and \<^verbatim>\<open>generate_grey_emperador\<close> (lines
  120 to 141). The result is the blurred image with the states the two generators are
  left in. The array that \<^verbatim>\<open>add_veins\<close> returns is handed to the next call of
  \<^verbatim>\<open>add_veins\<close> and then to \<^verbatim>\<open>np.clip\<close> as it is.
\<close>

definition generate_statuario :: "'s numpy \<Rightarrow> pil \<Rightarrow> (nat \<Rightarrow> real) \<Rightarrow> 's \<Rightarrow> nat \<Rightarrow> int
    \<Rightarrow> (py_error + (image \<times> 's \<times> nat)) option" where
  "generate_statuario np pil draws st k size' =
     (case np_full_rgb size' (0.97, 0.97, 0.98) of
        Inl e \<Rightarrow> Some (Inl e)
      | Inr base \<Rightarrow>
     (case create_seamless_noise np st size' size' 300 of
        Inl e \<Rightarrow> Some (Inl e)
      | Inr (noise, st') \<Rightarrow>
     (case add_texture base noise 0.02 of
        Inl e \<Rightarrow> Some (Inl e)
      | Inr base \<Rightarrow>
     (case add_veins pil draws k (Float64 base) (140, 140, 145) 18 (3, 9) of
        None \<Rightarrow> None
      | Some (Inl e) \<Rightarrow> Some (Inl e)
      | Some (Inr (base, k1)) \<Rightarrow>
     (case add_veins pil draws k1 base (170, 170, 175) 12 (1, 5) of
        None \<Rightarrow> None
      | Some (Inl e) \<Rightarrow> Some (Inl e)
      | Some (Inr (base, k2)) \<Rightarrow>
     (case astype_uint8 (times255 (np_clip01 base)) of
        Inl e \<Rightarrow> Some (Inl e)
      | Inr img \<Rightarrow> Some (Inr (gaussian_blur pil img 0.5, st', k2))))))))"

definition generate_grey_emperador :: "'s numpy \<Rightarrow> pil \<Rightarrow> (nat \<Rightarrow> real) \<Rightarrow> 's \<Rightarrow> nat \<Rightarrow> int
    \<Rightarrow> (py_error + (image \<times> 's \<times> nat)) option" where
  "generate_grey_emperador np pil draws st k size' =
     (case np_full_rgb size' (0.75, 0.74, 0.73) of
        Inl e \<Rightarrow> Some (Inl e)
      | Inr base \<Rightarrow>
     (case create_seamless_noise np st size' size' 180 of
        Inl e \<Rightarrow> Some (Inl e)
      | Inr (noise, st') \<Rightarrow>
     (case add_texture base noise 0.08 of
        Inl e \<Rightarrow> Some (Inl e)
      | Inr base \<Rightarrow>
     (case add_veins pil draws k (Float64 base) (100, 100, 105) 20 (2, 7) of
        None \<Rightarrow> None
      | Some (Inl e) \<Rightarrow> Some (Inl e)
      | Some (Inr (base, k1)) \<Rightarrow>
     (case add_veins pil draws k1 base (200, 198, 195) 15 (1, 4) of
        None \<Rightarrow> None
      | Some (Inl e) \<Rightarrow> Some (Inl e)
      | Some (Inr (base, k2)) \<Rightarrow>
     (case astype_uint8 (times255 (np_clip01 base)) of
        Inl e \<Rightarrow> Some (Inl e)
      | Inr img \<Rightarrow> Some (Inr (gaussian_blur pil img 0.6, st', k2))))))))"

text \<open>
  What the proofs about the presets ask of PIL: drawing a line keeps the size of the
  image, and where no channel of the image and of the colour is 0, no channel of the
  result is 0 (a blended channel lies between the two it blends); blurring a uniformly
  white image leaves it as it is. \<open>mean_brightness\<close> is the mean of all channel values.
\<close>

definition positive :: "image \<Rightarrow> bool" where
  "positive img = (\<forall>row\<in>set img. \<forall>p\<in>set row. case p of (r, g, b) \<Rightarrow> r \<noteq> 0 \<and> g \<noteq> 0 \<and> b \<noteq> 0)"

definition positive_fill :: "stroke \<Rightarrow> bool" where
  "positive_fill s = (case fill s of (r, g, b, a) \<Rightarrow> 0 < r \<and> r < 256 \<and> 0 < g \<and> g < 256 \<and> 0 < b \<and> b < 256)"

definition white :: "int \<Rightarrow> image" where
  "white size' = replicate (nat size') (replicate (nat size') (255, 255, 255))"

definition draw_blends :: "(image \<Rightarrow> stroke \<Rightarrow> image) \<Rightarrow> bool" where
  "draw_blends draw =
     (\<forall>img s. map length (draw img s) = map length img
        \<and> (positive img \<longrightarrow> positive_fill s \<longrightarrow> positive (draw img s)))"

definition pil_blends :: "pil \<Rightarrow> bool" where
  "pil_blends pil =
     (draw_blends (draw_line pil RGBA)
      \<and> (\<forall>size' radius. gaussian_blur pil (white size') radius = white size'))"

definition positive_color :: "int \<times> int \<times> int \<Rightarrow> bool" where
  "positive_color c = (case c of (r, g, b) \<Rightarrow> 0 < r \<and> r < 256 \<and> 0 < g \<and> g < 256 \<and> 0 < b \<and> b < 256)"

definition bright_rgb :: "real rgb \<Rightarrow> bool" where
  "bright_rgb p = (case p of (r, g, b) \<Rightarrow>
     1 \<le> r * 255 \<and> r \<le> 1 \<and> 1 \<le> g * 255 \<and> g \<le> 1 \<and> 1 \<le> b * 255 \<and> b \<le> 1)"

definition mean_brightness :: "image \<Rightarrow> real" where
  "mean_brightness img =
     (\<Sum>p\<leftarrow>concat img. case p of (r, g, b) \<Rightarrow> real (unat r) + real (unat g) + real (unat b))
       / (3 * real (length (concat img)))"



definition unit_rgb :: "real rgb \<Rightarrow> bool" where
  "unit_rgb p = (case p of (r, g, b) \<Rightarrow> 0 \<le> r \<and> r \<le> 1 \<and> 0 \<le> g \<and> g \<le> 1 \<and> 0 \<le> b \<and> b \<le> 1)"

definition quantize :: "real \<Rightarrow> 8 word" where
  "quantize v = word_of_int \<lfloor>v * 255\<rfloor>"

section \<open>Example environments\<close>

text \<open>
  Small generators and a nearest-neighbour zoom, on which the model can be run:
  \<open>demo_numpy\<close> draws the numbers 0, 1/4, 1/2, 3/4 in turn, \<open>flat_numpy\<close> draws 1/2
  every time, \<open>half_draws\<close> makes Python's generator yield 1/2 every time, and
  \<open>flood_pil\<close> paints the whole image in the colour of the stroke and blurs nothing.
\<close>

definition demo_numpy :: "nat numpy" where
  "demo_numpy = \<lparr>random_seed = (\<lambda>n. n),
                  random_sample = (\<lambda>st k. real ((st + k) mod 4) / 4),
                  random_skip = (\<lambda>st n. st + n),
                  spline_zoom = (\<lambda>a z order mode i j. a ! (i div z) ! (j div z))\<rparr>"

definition flat_numpy :: "nat numpy" where
  "flat_numpy = \<lparr>random_seed = (\<lambda>n. n),
                  random_sample = (\<lambda>st k. 1 / 2),
                  random_skip = (\<lambda>st n. st + n),
                  spline_zoom = (\<lambda>a z order mode i j. a ! (i div z) ! (j div z))\<rparr>"

definition flood_pil :: pil where
  "flood_pil =
     \<lparr>draw_line = (\<lambda>mode img s. case fill s of
                        (r, g, b, a) \<Rightarrow> map (map (\<lambda>p. (word_of_int r, word_of_int g, word_of_int b))) img),
      gaussian_blur = (\<lambda>img radius. img)\<rparr>"

definition half_draws :: "nat \<Rightarrow> real" where
  "half_draws k = 1 / 2"

section \<open>The synthesizer ignores the scale and the generator state it starts from\<close>

lemma octave_loop_state: "octs \<noteq> [] \<Longrightarrow>
  octave_loop np width height octs noise st1 = octave_loop np width height octs noise st2"
  by (cases octs) (auto split: sum.splits)

lemma octave_sum_scale:
  "octave_sum np st width height s1 = octave_sum np st width height s2"
  by (simp add: octave_sum_def np_linspace_def)

lemma octave_sum_state:
  "octave_sum np st1 width height scale = octave_sum np st2 width height scale"
proof -
  have "[0..<6] \<noteq> ([]::nat list)" by simp
  then have "octave_loop np width height [0..<6] noise st1 = octave_loop np width height [0..<6] noise st2"
    for noise by (rule octave_loop_state)
  then show ?thesis
    unfolding octave_sum_def by (simp split: sum.splits)
qed

text \<open>
  Claim C3. For every width and height and any two scale values, the synthesizer returns
  the same result: the coordinate arrays computed from the scale are never used.
\<close>

theorem create_seamless_noise_scale_irrelevant:
  "create_seamless_noise np st width height s1 = create_seamless_noise np st width height s2"
  by (simp add: create_seamless_noise_def octave_sum_scale [of np st width height s1 s2])

text \<open>
  Claim C4. Two calls with the same width, height and scale return the same field (and
  leave the same generator state), whatever state numpy's global generator was in before
  each call: every octave reseeds the generator with a function of its index alone.
\<close>

theorem create_seamless_noise_deterministic:
  "create_seamless_noise np st1 width height scale = create_seamless_noise np st2 width height scale"
  by (simp add: create_seamless_noise_def octave_sum_state [of np st1 width height scale st2])


section \<open>The sum of the octaves in closed form\<close>

lemma py_int_div: "0 \<le> h \<Longrightarrow> py_int (real_of_int h / 2 ^ k) = h div 2 ^ k"
proof -
  assume h: "0 \<le> h"
  have "real_of_int h / 2 ^ k = real_of_int h / real_of_int (2 ^ k)" by simp
  then have "\<lfloor>real_of_int h / 2 ^ k\<rfloor> = h div 2 ^ k"
    by (simp only: floor_divide_of_int_eq)
  moreover have "0 \<le> real_of_int h / 2 ^ k" using h by simp
  ultimately show ?thesis by (simp add: py_int_def)
qed

lemma crop_tabulate2:
  "nat h \<le> rows \<Longrightarrow> nat w \<le> cols \<Longrightarrow> crop h w (tabulate2 rows cols f) = tabulate2 (nat h) (nat w) f"
  by (simp add: crop_def tabulate2_def take_map)

lemma ncols_tabulate2: "0 < rows \<Longrightarrow> ncols (tabulate2 rows cols f) = cols"
  by (cases rows) (simp_all add: ncols_def tabulate2_def upt_conv_Cons del: upt_Suc)

lemma iadd_tabulate2:
  "np_iadd_scaled (tabulate2 rows cols f) (tabulate2 rows cols g) amp =
     Inr (tabulate2 rows cols (\<lambda>i j. f i j + g i j * amp))"
  by (simp add: np_iadd_scaled_def tabulate2_def map2_map_map comp_def)

lemma np_zeros_tabulate2:
  "0 \<le> h \<Longrightarrow> 0 \<le> w \<Longrightarrow> np_zeros h w = Inr (tabulate2 (nat h) (nat w) (\<lambda>i j. 0))"
  by (simp add: np_zeros_def tabulate2_def map_replicate_const)

lemma zoomed_covers: "0 \<le> (h::int) \<Longrightarrow> nat h \<le> nat (h div 2 ^ k + 2) * 2 ^ k"
proof -
  assume h: "0 \<le> h"
  define f :: int where "f = 2 ^ k"
  have f: "0 < f" by (simp add: f_def)
  have "h = h div f * f + h mod f" by simp
  moreover have "h mod f < f" using f by simp
  ultimately have "h \<le> h div f * f + f" by linarith
  also have "\<dots> \<le> (h div f + 2) * f" using f by (simp add: distrib_right)
  finally have le: "h \<le> (h div f + 2) * f" .
  have nn: "0 \<le> h div f" using h f by (simp add: pos_imp_zdiv_nonneg_iff)
  from le have "nat h \<le> nat ((h div f + 2) * f)" by simp
  also have "\<dots> = nat (h div f + 2) * nat f"
    using nn by (simp add: nat_mult_distrib)
  also have "nat f = 2 ^ k" by (simp add: f_def nat_power_eq)
  finally show ?thesis by (simp add: f_def)
qed

lemma nat_div_plus2: "0 \<le> (h::int) \<Longrightarrow> nat (h div 2 ^ k + 2) = nat (h div 2 ^ k) + 2"
  by (simp add: nat_add_distrib pos_imp_zdiv_nonneg_iff)

lemma rand_grid:
  assumes "0 \<le> h" "0 \<le> w"
  shows "np_random_rand np (random_seed np (k + 42)) (py_int (real_of_int h / 2 ^ k) + 2)
           (py_int (real_of_int w / 2 ^ k) + 2)
         = Inr (octave_grid np w h k, octave_state np w h k)"
proof -
  have a: "py_int (real_of_int h / 2 ^ k) = h div 2 ^ k"
    using py_int_div [OF assms(1), of k] by simp
  have b: "py_int (real_of_int w / 2 ^ k) = w div 2 ^ k"
    using py_int_div [OF assms(2), of k] by simp
  have c: "0 \<le> h div 2 ^ k" "0 \<le> w div 2 ^ k"
    using assms by (simp_all add: pos_imp_zdiv_nonneg_iff)
  show ?thesis
    unfolding a b using c
    by (simp add: np_random_rand_def octave_grid_def octave_state_def tabulate2_def
        nat_add_distrib)
qed

lemma zoom_tabulate2:
  "ndimage_zoom np a z order mode = tabulate2 (length a * z) (ncols a * z) (spline_zoom np a z order mode)"
  by (simp add: ndimage_zoom_def tabulate2_def)

lemma octave_grid_shape:
  "length (octave_grid np w h k) = nat (h div 2 ^ k) + 2"
  "ncols (octave_grid np w h k) = nat (w div 2 ^ k) + 2"
  by (simp_all add: octave_grid_def ncols_tabulate2) (simp add: tabulate2_def)

lemma octave_step_tabulate2:
  assumes "0 \<le> h" "0 \<le> w"
  shows "octave_step np w h (tabulate2 (nat h) (nat w) f) k =
           Inr (tabulate2 (nat h) (nat w) (\<lambda>i j. f i j + octave_layer np w h k i j * (1 / 2 ^ k)),
                octave_state np w h k)"
proof -
  have rows: "nat h \<le> length (octave_grid np w h k) * 2 ^ k"
    using zoomed_covers [OF assms(1), of k] assms(1) by (simp add: octave_grid_shape nat_div_plus2)
  have cols: "nat w \<le> ncols (octave_grid np w h k) * 2 ^ k"
    using zoomed_covers [OF assms(2), of k] assms(2) by (simp add: octave_grid_shape nat_div_plus2)
  have "crop h w (ndimage_zoom np (octave_grid np w h k) (2 ^ k) 3 Wrap)
          = tabulate2 (nat h) (nat w) (octave_layer np w h k)"
    unfolding zoom_tabulate2 using rows cols
    by (simp add: crop_tabulate2 octave_layer_def [abs_def])
  then show ?thesis
    by (simp add: octave_step_def Let_def rand_grid [OF assms] iadd_tabulate2)
qed

lemma octave_loop_tabulate2:
  assumes "0 \<le> h" "0 \<le> w"
  shows "octave_loop np w h octs (tabulate2 (nat h) (nat w) f) st =
           Inr (tabulate2 (nat h) (nat w)
                  (\<lambda>i j. f i j + (\<Sum>k\<leftarrow>octs. octave_layer np w h k i j * (1 / 2 ^ k))),
                if octs = [] then st else octave_state np w h (last octs))"
proof (induction octs arbitrary: f st)
  case Nil
  then show ?case by simp
next
  case (Cons k octs)
  show ?case
    by (simp add: octave_step_tabulate2 [OF assms] Cons.IH add.assoc)
qed

lemma octave_sum_closed:
  assumes "0 \<le> width" "0 \<le> height"
  shows "octave_sum np st width height scale =
           Inr (six_octaves np width height, octave_state np width height 5)"
proof -
  have last: "last [0..<6] = (5::nat)" "[0..<6] \<noteq> ([]::nat list)"
    by (simp_all add: upt_rec_numeral)
  have "octave_loop np width height [0..<6] (tabulate2 (nat height) (nat width) (\<lambda>i j. 0)) st
          = Inr (six_octaves np width height, octave_state np width height 5)"
    unfolding octave_loop_tabulate2 [OF assms(2,1)] six_octaves_def
    by (simp only: last if_False add_0)
  then show ?thesis
    using assms by (simp add: octave_sum_def np_linspace_def np_zeros_tabulate2)
qed

lemma demo_six_octaves: "six_octaves demo_numpy 2 1 = [[123 / 128, 155 / 128]]"
  by code_simp

lemma demo_octave_state: "octave_state demo_numpy 2 1 5 = 51"
  by code_simp

text \<open>
  Claim C6. The synthesizer sums exactly six octaves: for non-negative width and height the
  field before the rescaling is \<open>six_octaves\<close>, in which octave \<open>o\<close> has the frequency
  factor \<open>2^o\<close> and the weight \<open>1 / 2^o\<close>, draws its grid of \<open>height div 2^o + 2\<close> rows
  and \<open>width div 2^o + 2\<close> columns from the generator seeded with \<open>o + 42\<close>, and is
  upsampled by \<open>2^o\<close> with splines of order 3 and wrapped boundaries.
\<close>

theorem octave_sum_six_octaves:
  assumes "0 \<le> width" "0 \<le> height"
  shows "octave_sum np st width height scale =
           Inr (six_octaves np width height, octave_state np width height 5)
         \<and> map length (octave_grid np width height octave) =
             replicate (nat (height div 2 ^ octave) + 2) (nat (width div 2 ^ octave) + 2)"
proof -
  have "map length (tabulate2 rows cols f) = replicate rows cols" for rows cols
    and f :: "nat \<Rightarrow> nat \<Rightarrow> real"
    by (simp add: tabulate2_def map_replicate_const comp_def del: upt_Suc)
  then show ?thesis
    using octave_sum_closed [OF assms] by (simp only: octave_grid_def simp_thms)
qed

theorem octave_sum_six_octaves_witness:
  "octave_sum demo_numpy 0 2 1 100 = Inr ([[123 / 128, 155 / 128]], 51)
   \<and> map length (octave_grid demo_numpy 2 1 3) = [2, 2]"
  using octave_sum_six_octaves [of 2 1 demo_numpy 0 100 3]
  by (simp add: demo_six_octaves demo_octave_state numeral_2_eq_2)

section \<open>The rescaling\<close>

lemma fold_min_Min: "fold min vs (v::real) = Min (set (v # vs))"
  by (simp only: Min.set_eq_fold)

lemma fold_max_Max: "fold max vs (v::real) = Max (set (v # vs))"
  by (simp only: Max.set_eq_fold)

lemma np_min_Inr: "np_min a = Inr lo \<Longrightarrow> concat a \<noteq> [] \<and> lo = Min (set (concat a))"
  unfolding np_min_def fold_min_Min by (cases "concat a") (simp_all only: list.case sum.inject sum.distinct list.distinct simp_thms)

lemma np_max_Inr: "np_max a = Inr hi \<Longrightarrow> concat a \<noteq> [] \<and> hi = Max (set (concat a))"
  unfolding np_max_def fold_max_Max by (cases "concat a") (simp_all only: list.case sum.inject sum.distinct list.distinct simp_thms)

lemma in_grid_bounds:
  assumes "np_min a = Inr lo" "np_max a = Inr hi" "r \<in> set a" "v \<in> set r"
  shows "lo \<le> v \<and> v \<le> hi"
proof -
  have v: "v \<in> set (concat a)" using assms(3,4) by auto
  have "lo = Min (set (concat a))" "hi = Max (set (concat a))"
    using np_min_Inr [OF assms(1)] np_max_Inr [OF assms(2)] by blast+
  then show ?thesis using v Min_le [of "set (concat a)" v] Max_ge [of "set (concat a)" v]
    by (simp del: set_concat)
qed

lemma lo_hi_in_grid:
  assumes "np_min a = Inr lo" "np_max a = Inr hi"
  shows "lo \<in> set (concat a)" "hi \<in> set (concat a)"
proof -
  have ne: "set (concat a) \<noteq> {}" using np_min_Inr [OF assms(1)] by (simp del: set_concat)
  have "lo = Min (set (concat a))" "hi = Max (set (concat a))"
    using np_min_Inr [OF assms(1)] np_max_Inr [OF assms(2)] by blast+
  then show "lo \<in> set (concat a)" "hi \<in> set (concat a)"
    using Min_in [OF _ ne] Max_in [OF _ ne] by (simp_all del: set_concat)
qed

lemma normalize_spread:
  assumes lo: "np_min a = Inr lo" and hi: "np_max a = Inr hi" and ne: "lo \<noteq> hi"
  shows "normalize a = Inr (map (map (\<lambda>v. Fin ((v - lo) / (hi - lo)))) a)"
  using assms by (simp add: normalize_def true_divide_def)

lemma normalize_flat:
  assumes lo: "np_min a = Inr lo" and hi: "np_max a = Inr lo"
  shows "normalize a = Inr (map (map (\<lambda>v. NaN)) a)"
proof -
  have "\<forall>r\<in>set a. \<forall>v\<in>set r. v = lo"
    using in_grid_bounds [OF lo hi] by fastforce
  then have "map (map (\<lambda>v. true_divide (v - lo) (lo - lo))) a = map (map (\<lambda>v. NaN)) a"
    by (auto simp: true_divide_def)
  then show ?thesis using lo hi by (simp add: normalize_def)
qed

lemma normalize_range:
  assumes lo: "np_min a = Inr lo" and hi: "np_max a = Inr hi" and ne: "lo \<noteq> hi"
  shows "\<forall>r\<in>set a. \<forall>v\<in>set r. 0 \<le> (v - lo) / (hi - lo) \<and> (v - lo) / (hi - lo) \<le> 1"
    and "\<exists>r\<in>set a. \<exists>v\<in>set r. (v - lo) / (hi - lo) = 0"
    and "\<exists>r\<in>set a. \<exists>v\<in>set r. (v - lo) / (hi - lo) = 1"
proof -
  have lo_in: "lo \<in> set (concat a)" and hi_in: "hi \<in> set (concat a)"
    using lo_hi_in_grid [OF lo hi] by blast+
  from lo_in obtain r where r: "r \<in> set a" "lo \<in> set r" by auto
  from hi_in obtain r' where r': "r' \<in> set a" "hi \<in> set r'" by auto
  from in_grid_bounds [OF lo hi r] ne have lt: "lo < hi" by simp
  show "\<forall>r\<in>set a. \<forall>v\<in>set r. 0 \<le> (v - lo) / (hi - lo) \<and> (v - lo) / (hi - lo) \<le> 1"
    using in_grid_bounds [OF lo hi] lt by simp
  show "\<exists>r\<in>set a. \<exists>v\<in>set r. (v - lo) / (hi - lo) = 0"
    using r by (intro bexI [of _ r] bexI [of _ lo]) simp_all
  show "\<exists>r\<in>set a. \<exists>v\<in>set r. (v - lo) / (hi - lo) = 1"
    using r' lt by (intro bexI [of _ r'] bexI [of _ hi]) simp_all
qed

lemma demo_octave_sum: "octave_sum demo_numpy 0 2 1 100 = Inr ([[123 / 128, 155 / 128]], 51)"
  by code_simp

lemma demo_spread: "np_min [[123 / 128, 155 / 128]] \<noteq> np_max [[123 / 128, 155 / 128]]"
  by code_simp

text \<open>
  Claim C5, as stated, fails. With one pixel the summed field has a single value, so its
  minimum and maximum coincide although the octave grids are not flat: the rescaling
  divides zero by zero and the value returned is NaN, which is neither in [0, 1] nor
  0 nor 1. The first conjunct shows the grid of octave 0, which is not flat.
\<close>

theorem noise_single_pixel_is_nan:
  "octave_grid demo_numpy 1 1 0 = [[1 / 2, 3 / 4, 0], [1 / 4, 1 / 2, 3 / 4], [0, 1 / 4, 1 / 2]]
   \<and> create_seamless_noise demo_numpy 0 1 1 100 = Inr ([[NaN]], 51)"
  by code_simp

text \<open>
  Claim C5, amended. For every scale, whenever the field summed by the octave loop has two
  different values, the synthesizer returns a field whose values are all numbers of
  [0, 1], with the value 0 and the value 1 both present.
\<close>

theorem create_seamless_noise_range:
  assumes sum: "octave_sum np st width height scale = Inr (acc, st')"
    and spread: "np_min acc \<noteq> np_max acc"
  shows "\<exists>field. create_seamless_noise np st width height scale = Inr (field, st')
           \<and> (\<forall>row\<in>set field. \<forall>v\<in>set row. \<exists>r. v = Fin r \<and> 0 \<le> r \<and> r \<le> 1)
           \<and> (\<exists>row\<in>set field. Fin 0 \<in> set row)
           \<and> (\<exists>row\<in>set field. Fin 1 \<in> set row)"
proof -
  obtain lo hi where lo: "np_min acc = Inr lo" and hi: "np_max acc = Inr hi"
    using spread
    by (cases "concat acc") (auto simp: np_min_def np_max_def simp del: concat_eq_Nil_conv)
  with spread have ne: "lo \<noteq> hi" by auto
  let ?f = "\<lambda>v. Fin ((v - lo) / (hi - lo))"
  let ?field = "map (map ?f) acc"
  have "create_seamless_noise np st width height scale = Inr (?field, st')"
    by (simp add: create_seamless_noise_def sum normalize_spread [OF lo hi ne])
  moreover have "\<forall>row\<in>set ?field. \<forall>v\<in>set row. \<exists>r. v = Fin r \<and> 0 \<le> r \<and> r \<le> 1"
    using normalize_range(1) [OF lo hi ne] by auto
  moreover have "\<exists>row\<in>set ?field. Fin 0 \<in> set row"
  proof -
    from normalize_range(2) [OF lo hi ne]
    obtain r v where "r \<in> set acc" "v \<in> set r" "(v - lo) / (hi - lo) = 0" by blast
    then have "map ?f r \<in> set ?field" "Fin 0 \<in> set (map ?f r)" by force+
    then show ?thesis by blast
  qed
  moreover have "\<exists>row\<in>set ?field. Fin 1 \<in> set row"
  proof -
    from normalize_range(3) [OF lo hi ne]
    obtain r v where "r \<in> set acc" "v \<in> set r" "(v - lo) / (hi - lo) = 1" by blast
    then have "map ?f r \<in> set ?field" "Fin 1 \<in> set (map ?f r)" by force+
    then show ?thesis by blast
  qed
  ultimately show ?thesis by blast
qed

theorem create_seamless_noise_range_witness:
  "\<exists>field. create_seamless_noise demo_numpy 0 2 1 100 = Inr (field, 51)
     \<and> (\<forall>row\<in>set field. \<forall>v\<in>set row. \<exists>r. v = Fin r \<and> 0 \<le> r \<and> r \<le> 1)
     \<and> (\<exists>row\<in>set field. Fin 0 \<in> set row)
     \<and> (\<exists>row\<in>set field. Fin 1 \<in> set row)"
  by (rule create_seamless_noise_range [OF demo_octave_sum demo_spread])

section \<open>The flat case\<close>

lemma flat_octave_sum: "octave_sum flat_numpy 7 3 2 100 = Inr ([[63 / 64, 63 / 64, 63 / 64], [63 / 64, 63 / 64, 63 / 64]], 51)"
  by code_simp

lemma flat_min: "np_min [[63 / 64, 63 / 64, 63 / 64], [63 / 64, 63 / 64, 63 / 64]] = Inr (63 / 64)"
  by code_simp

lemma flat_max: "np_max [[63 / 64, 63 / 64, 63 / 64], [63 / 64, 63 / 64, 63 / 64]] = Inr (63 / 64)"
  by code_simp

text \<open>
  Claim C1, as stated, fails. When every octave draws a flat grid (here with an
  upsampling that returns it exactly), the summed field is flat, the rescaling of line 38
  divides zero by zero without any guard, and every value of the field returned is NaN,
  not 0.5. No exception is raised.
\<close>

theorem flat_octaves_give_nan:
  "create_seamless_noise flat_numpy 0 2 2 100 = Inr ([[NaN, NaN], [NaN, NaN]], 51)"
  by code_simp

text \<open>
  Claim C1, amended. The rescaling has no guard against a zero divisor. Whenever the
  field summed from the octaves is flat, its minimum equal to its maximum, the
  synthesizer raises nothing and returns a field of the same shape whose every value is
  NaN, not 0.5.
\<close>

theorem create_seamless_noise_flat:
  assumes sum: "octave_sum np st width height scale = Inr (acc, st')"
    and lo: "np_min acc = Inr lo" and hi: "np_max acc = Inr lo"
  shows "create_seamless_noise np st width height scale = Inr (map (map (\<lambda>v. NaN)) acc, st')"
  by (simp add: create_seamless_noise_def sum normalize_flat [OF lo hi])

theorem create_seamless_noise_flat_witness:
  "create_seamless_noise flat_numpy 7 3 2 100 = Inr ([[NaN, NaN, NaN], [NaN, NaN, NaN]], 51)"
  using create_seamless_noise_flat [OF flat_octave_sum flat_min flat_max] by simp

section \<open>The random walk of a vein\<close>


lemma walk_stop:
  "\<not> (x < real_of_int (width + width div 4) \<and> 0 \<le> y \<and> y < real_of_int height) \<Longrightarrow>
   walk draws width height x y angle points k = Some (points, k)"
  by (subst walk.simps) (simp only: if_not_P if_False)

lemma walk_step:
  "x < real_of_int (width + width div 4) \<and> 0 \<le> y \<and> y < real_of_int height \<Longrightarrow>
   walk draws width height x y angle points k =
     walk draws width height (x + (15 + (35 - 15) * draws (Suc k)))
       (y + sin (angle + (- 0.15 + (0.15 - - 0.15) * draws k)) * (10 + (30 - 10) * draws (Suc (Suc k))))
       (angle + (- 0.15 + (0.15 - - 0.15) * draws k)) (points @ [(py_int x, py_int y)]) (Suc (Suc (Suc k)))"
  by (subst walk.simps) (simp only: if_P random_uniform_def Let_def prod.case)

lemma walk_terminates:
  assumes unit: "unit_draws draws"
    and fuel: "real_of_int (width + width div 4) - x \<le> 15 * real n"
  shows "\<exists>pts k'. walk draws width height x y angle points k = Some (pts, k')
           \<and> length pts \<le> length points + n"
  using fuel
proof (induction n arbitrary: x y angle points k)
  case 0
  then have "\<not> x < real_of_int (width + width div 4)" by simp
  then show ?case by (simp add: walk_stop)
next
  case (Suc n)
  show ?case
  proof (cases "x < real_of_int (width + width div 4) \<and> 0 \<le> y \<and> y < real_of_int height")
    case False
    then show ?thesis by (simp add: walk_stop)
  next
    case True
    have "0 \<le> draws (Suc k)" using unit by (simp add: unit_draws_def)
    then have "real_of_int (width + width div 4) - (x + (15 + (35 - 15) * draws (Suc k))) \<le> 15 * real n"
      using Suc.prems by simp
    from Suc.IH [OF this]
    obtain pts k' where
      "walk draws width height (x + (15 + (35 - 15) * draws (Suc k)))
         (y + sin (angle + (- 0.15 + (0.15 - - 0.15) * draws k)) * (10 + (30 - 10) * draws (Suc (Suc k))))
         (angle + (- 0.15 + (0.15 - - 0.15) * draws k)) (points @ [(py_int x, py_int y)]) (Suc (Suc (Suc k)))
       = Some (pts, k')"
      and "length pts \<le> length (points @ [(py_int x, py_int y)]) + n"
      by blast
    then show ?thesis unfolding walk_step [OF True] by auto
  qed
qed

lemma randint_range:
  assumes "unit_draws draws" "a \<le> b"
  shows "\<exists>v. random_randint draws k a b = Inr (v, Suc k) \<and> a \<le> v \<and> v \<le> b"
proof -
  let ?u = "draws k" and ?n = "real_of_int (b - a + 1)"
  have u: "0 \<le> ?u" "?u < 1" using assms(1) by (simp_all add: unit_draws_def)
  have n: "0 < ?n" using assms(2) by simp
  have "0 \<le> ?u * ?n" using u n by simp
  then have lo: "0 \<le> \<lfloor>?u * ?n\<rfloor>" by simp
  have "?u * ?n < ?n" using u n by simp
  then have "\<lfloor>?u * ?n\<rfloor> < b - a + 1" by (simp only: floor_less_iff)
  with lo show ?thesis using assms(2) by (simp add: random_randint_def)
qed

lemma span_bound:
  assumes "0 \<le> (w::int)"
  shows "w + w div 4 - (- w) div 4 \<le> 15 * ((w + w div 2) div 15 + 1)"
proof -
  have "w + w div 4 - (- w) div 4 \<le> w + w div 2 + 1" by arith
  moreover have "w + w div 2 + 1 \<le> 15 * ((w + w div 2) div 15 + 1)" by arith
  ultimately show ?thesis by linarith
qed

lemma vein_path_bounded:
  assumes unit: "unit_draws draws" and w: "0 \<le> width" and h: "0 \<le> height"
  shows "\<exists>points k'. vein_path draws width height k = Some (Inr (points, k'))
           \<and> int (length points) \<le> (width + width div 2) div 15 + 1"
proof -
  have "(- width) div 4 \<le> width + width div 4" using w by arith
  from randint_range [OF unit this, of k]
  obtain sx where sx: "random_randint draws k ((- width) div 4) (width + width div 4) = Inr (sx, Suc k)"
    and sx_lo: "(- width) div 4 \<le> sx" by blast
  from randint_range [OF unit h, of "Suc k"]
  obtain sy where sy: "random_randint draws (Suc k) 0 height = Inr (sy, Suc (Suc k))" by blast
  define n where "n = nat ((width + width div 2) div 15 + 1)"
  have nn: "0 \<le> (width + width div 2) div 15 + 1" using w by arith
  have "width + width div 4 - sx \<le> 15 * ((width + width div 2) div 15 + 1)"
    using span_bound [OF w] sx_lo by linarith
  then have "real_of_int (width + width div 4 - sx) \<le> real_of_int (15 * ((width + width div 2) div 15 + 1))"
    by (simp only: of_int_le_iff)
  also have "\<dots> = 15 * real n" using nn by (simp add: n_def)
  finally have fuel: "real_of_int (width + width div 4) - real_of_int sx \<le> 15 * real n" by simp
  from walk_terminates [OF unit fuel, of height "real_of_int sy"
      "- 0.5 + (0.5 - - 0.5) * draws (Suc (Suc k))" "[]" "Suc (Suc (Suc k))"]
  obtain pts k' where wk: "walk draws width height (real_of_int sx) (real_of_int sy)
      (- 0.5 + (0.5 - - 0.5) * draws (Suc (Suc k))) [] (Suc (Suc (Suc k))) = Some (pts, k')"
    and len: "length pts \<le> n" by auto
  have "vein_path draws width height k = Some (Inr (pts, k'))"
    by (simp only: vein_path_def sx sy random_uniform_def wk sum.case prod.case Let_def option.map)
  moreover have "int (length pts) \<le> (width + width div 2) div 15 + 1"
    using len nn by (simp add: n_def)
  ultimately show ?thesis by blast
qed

text \<open>
  Claim C10. For numbers drawn from the unit interval and every non-negative width and
  height, the random walk of a vein terminates: each pass adds at least 15 to \<open>x\<close>,
  which starts at \<open>(- width) div 4\<close> or more and stops the loop at
  \<open>width + width div 4\<close>. The path has at most \<open>(width + width div 2) div 15 + 1\<close> points.
\<close>

theorem vein_path_terminates:
  assumes "unit_draws draws" and "0 \<le> width" and "0 \<le> height"
  shows "\<exists>points k'. vein_path draws width height k = Some (Inr (points, k'))
           \<and> int (length points) \<le> (width + width div 2) div 15 + 1"
  using assms by (rule vein_path_bounded)

lemma half_unit: "unit_draws half_draws"
  by (simp add: unit_draws_def half_draws_def)

theorem vein_path_terminates_witness:
  "\<exists>points k'. vein_path half_draws 100 100 0 = Some (Inr (points, k'))
     \<and> int (length points) \<le> (100 + 100 div 2) div 15 + 1"
  using vein_path_terminates [OF half_unit, of 100 100 0] by simp


section \<open>The strokes of the vein painter\<close>




lemma sequence_map:
  "(\<And>x. x \<in> set xs \<Longrightarrow> f x = Inr (g x)) \<Longrightarrow> sequence (map f xs) = Inr (map g xs)"
  by (induction xs) simp_all

lemma quantize_channel:
  assumes "0 \<le> v" "v \<le> 1"
  shows "f64_to_uint8 (Fin (v * 255)) = Inr (quantize v)"
proof -
  have "0 \<le> v * 255" "v * 255 < 256" using assms by simp_all
  then show ?thesis by (simp add: quantize_def py_int_def)
qed

lemma quantize_rgb:
  assumes "unit_rgb p"
  shows "rgb_to_uint8 (map_rgb (\<lambda>v. f64_scale v 255) (map_rgb Fin p)) = Inr (map_rgb quantize p)"
  using assms
  by (cases p) (simp add: unit_rgb_def rgb_to_uint8_def map_rgb_def quantize_channel del: f64_to_uint8.simps)

lemma astype_quantize:
  assumes "\<forall>row\<in>set buf. \<forall>p\<in>set row. unit_rgb p"
  shows "astype_uint8 (times255 (Float64 (map (map (map_rgb Fin)) buf)))
           = Inr (map (map (map_rgb quantize)) buf)"
proof -
  have row: "sequence (map rgb_to_uint8 (map (map_rgb (\<lambda>v. f64_scale v 255)) (map (map_rgb Fin) r)))
               = Inr (map (map_rgb quantize) r)"
    if "r \<in> set buf" for r
    using that assms
    by (simp add: comp_def quantize_rgb sequence_map [where g = "map_rgb quantize"])
  show ?thesis
    by (simp add: comp_def)
       (rule sequence_map [where g = "map (map_rgb quantize)"], use row in \<open>simp add: comp_def\<close>)
qed


lemma shape_nonneg: "shape a = (h, w) \<Longrightarrow> 0 \<le> h \<and> 0 \<le> w"
  by (cases a) auto




















section \<open>Painting no vein\<close>











section \<open>The presets lose their colours\<close>

lemma vein_returns:
  assumes unit: "unit_draws draws" and w: "0 \<le> width" and h: "0 \<le> height"
    and tr: "fst thickness_range \<le> snd thickness_range"
    and col: "positive_color color"
  shows "\<exists>res k'. vein draws color thickness_range width height k = Some (Inr (res, k'))
           \<and> (\<forall>s. res = Some s \<longrightarrow> positive_fill s)"
proof -
  from vein_path_bounded [OF unit w h, of k]
  obtain points k1 where path: "vein_path draws width height k = Some (Inr (points, k1))" by blast
  show ?thesis
  proof (cases "1 < length points")
    case False
    then show ?thesis by (simp add: vein_def path)
  next
    case True
    from randint_range [OF unit tr, of k1]
    obtain t where t: "random_randint draws k1 (fst thickness_range) (snd thickness_range) = Inr (t, Suc k1)"
      by blast
    from randint_range [OF unit, of 30 120 "Suc k1"]
    obtain a where a: "random_randint draws (Suc k1) 30 120 = Inr (a, Suc (Suc k1))" by auto
    obtain r g b where c: "color = (r, g, b)" by (cases color)
    have "vein draws color thickness_range width height k =
            Some (Inr (Some \<lparr>xy = points, fill = (r, g, b, a), stroke_width = t\<rparr>, Suc (Suc k1)))"
      using True by (simp add: vein_def path t a c)
    moreover have "positive_fill \<lparr>xy = points, fill = (r, g, b, a), stroke_width = t\<rparr>"
      using col c by (simp add: positive_fill_def positive_color_def)
    ultimately show ?thesis by simp
  qed
qed

lemma veins_loop_positive:
  assumes unit: "unit_draws draws" and w: "0 \<le> width" and h: "0 \<le> height"
    and tr: "fst thickness_range \<le> snd thickness_range"
    and col: "positive_color color"
    and draw: "draw_blends draw"
    and pos: "positive img"
  shows "\<exists>img' k'. veins_loop draw draws color thickness_range width height n img k
             = Some (Inr (img', k'))
           \<and> positive img' \<and> map length img' = map length img"
  using pos
proof (induction n arbitrary: img k)
  case 0
  then show ?case by simp
next
  case (Suc n)
  from vein_returns [OF unit w h tr col, of k]
  obtain res k1 where v: "vein draws color thickness_range width height k = Some (Inr (res, k1))"
    and fill: "\<forall>s. res = Some s \<longrightarrow> positive_fill s" by blast
  show ?case
  proof (cases res)
    case None
    with Suc.IH [OF Suc.prems, of k1] v show ?thesis by simp
  next
    case (Some s)
    with fill have "positive (draw img s)"
      using draw Suc.prems unfolding draw_blends_def by blast
    moreover have "map length (draw img s) = map length img"
      using draw unfolding draw_blends_def by blast
    ultimately show ?thesis using Suc.IH [of "draw img s" k1] v Some by simp
  qed
qed

lemma quantize_nonzero:
  assumes "1 \<le> v * 255" "v \<le> 1"
  shows "quantize v \<noteq> 0"
proof -
  have "1 \<le> \<lfloor>v * 255\<rfloor>" using assms(1) by (simp add: le_floor_iff)
  moreover have "\<lfloor>v * 255\<rfloor> \<le> 255" using assms(2) by (simp add: floor_le_iff)
  ultimately have "\<not> 256 dvd \<lfloor>v * 255\<rfloor>" by (simp add: zdvd_not_zless)
  then show ?thesis by (simp add: quantize_def word_of_int_eq_0_iff)
qed

lemma times255_nonzero:
  assumes "(v::8 word) \<noteq> 0"
  shows "v * 255 \<noteq> 0"
proof
  assume z: "v * 255 = 0"
  have m: "(255::8 word) = - 1" by simp
  have "v * 255 = - v" unfolding m by (simp only: mult_minus_right mult_1_right)
  with z have "- v = 0" by (simp only:)
  then have "v = 0" by (simp only: neg_equal_0_iff_equal)
  with assms show False by simp
qed

lemma clip01_nonzero: "(v::8 word) \<noteq> 0 \<Longrightarrow> min (max v 0) 1 * 255 = 255"
proof -
  assume "v \<noteq> 0"
  then have "1 \<le> v" by (simp add: word_le_nat_alt unat_gt_0 Suc_leI)
  then show ?thesis by (simp add: min_def max_def)
qed

lemma map2_replicate_left:
  "length ys = n \<Longrightarrow> map2 f (replicate n x) ys = map (f x) ys"
  by (induction ys arbitrary: n) auto

lemma bright_unit: "bright_rgb p \<Longrightarrow> unit_rgb p"
  by (cases p) (auto simp: bright_rgb_def unit_rgb_def intro: order_trans [of 0 "1 / 255"])

lemma map_const_grid:
  assumes "map length img = replicate n m"
  shows "map (map (\<lambda>p. w)) img = replicate n (replicate m w)"
proof -
  have "map (map (\<lambda>p. w)) img = map (\<lambda>l. replicate l w) (map length img)"
    by (simp add: map_replicate_const comp_def)
  then show ?thesis by (simp add: assms)
qed

lemma preset_base:
  assumes size: "0 \<le> n"
    and spread: "np_min (six_octaves np n n) \<noteq> np_max (six_octaves np n n)"
    and amp: "0 \<le> amp"
    and c: "1 \<le> c1 * 255" "c1 + amp \<le> 1" "1 \<le> c2 * 255" "c2 + amp \<le> 1"
           "1 \<le> c3 * 255" "c3 + amp \<le> 1"
  shows "\<exists>base noise buf.
           np_full_rgb n (c1, c2, c3) = Inr base
         \<and> create_seamless_noise np st n n scale = Inr (noise, octave_state np n n 5)
         \<and> add_texture base noise amp = Inr (map (map (map_rgb Fin)) buf)
         \<and> (\<forall>row\<in>set buf. \<forall>p\<in>set row. bright_rgb p)
         \<and> map length buf = replicate (nat n) (nat n)"
proof -
  let ?acc = "six_octaves np n n"
  have sum: "octave_sum np st n n scale = Inr (?acc, octave_state np n n 5)"
    by (rule octave_sum_closed [OF size size])
  obtain lo hi where lo: "np_min ?acc = Inr lo" and hi: "np_max ?acc = Inr hi"
    using spread
    by (cases "concat ?acc") (auto simp: np_min_def np_max_def simp del: concat_eq_Nil_conv)
  with spread have ne: "lo \<noteq> hi" by auto
  define g where "g v = (v - lo) / (hi - lo)" for v
  define noise where "noise = map (map (\<lambda>v. Fin (g v))) ?acc"
  define px where "px v = (c1 + g v * amp, c2 + g v * amp, c3 + g v * amp)" for v
  define buf where "buf = map (map px) ?acc"
  define base where "base = replicate (nat n) (replicate (nat n) (map_rgb Fin (c1, c2, c3)))"
  have shape: "map length ?acc = replicate (nat n) (nat n)"
    by (simp add: six_octaves_def tabulate2_def map_replicate_const comp_def del: upt_Suc)
  then have len: "length ?acc = nat n"
    by (metis length_map length_replicate)
  have rowlen: "length r = nat n" if "r \<in> set ?acc" for r
  proof -
    have "length r \<in> set (map length ?acc)" using that by simp
    then show ?thesis unfolding shape by simp
  qed
  have full: "np_full_rgb n (c1, c2, c3) = Inr base"
    using size by (simp add: np_full_rgb_def base_def)
  have noise: "create_seamless_noise np st n n scale = Inr (noise, octave_state np n n 5)"
    by (simp add: create_seamless_noise_def sum normalize_spread [OF lo hi ne] noise_def g_def)
  have rows: "map2 (\<lambda>p n. map_rgb (\<lambda>c. f64_add c (f64_scale n amp)) p)
                (replicate (nat n) (map_rgb Fin (c1, c2, c3))) (map (\<lambda>v. Fin (g v)) r)
              = map (map_rgb Fin) (map px r)"
    if "r \<in> set ?acc" for r
    using rowlen [OF that]
    by (simp add: map2_replicate_left map_rgb_def px_def)
  have "map2 (map2 (\<lambda>p n. map_rgb (\<lambda>c. f64_add c (f64_scale n amp)) p)) base noise
          = map (map2 (\<lambda>p n. map_rgb (\<lambda>c. f64_add c (f64_scale n amp)) p)
                   (replicate (nat n) (map_rgb Fin (c1, c2, c3)))) noise"
    unfolding base_def by (rule map2_replicate_left) (simp add: noise_def len)
  also have "\<dots> = map (map (map_rgb Fin)) buf"
    unfolding noise_def buf_def using rows by simp
  finally have tex: "add_texture base noise amp = Inr (map (map (map_rgb Fin)) buf)"
    using shape by (simp add: add_texture_def base_def noise_def comp_def map_replicate_const)
  have g01: "0 \<le> g v \<and> g v \<le> 1" if "r \<in> set ?acc" "v \<in> set r" for r v
    using normalize_range(1) [OF lo hi ne] that unfolding g_def by blast
  have bright: "bright_rgb (px v)" if "r \<in> set ?acc" "v \<in> set r" for r v
  proof -
    from g01 [OF that] have g: "0 \<le> g v" "g v \<le> 1" by simp_all
    then have "0 \<le> g v * amp" "g v * amp \<le> amp"
      using amp by (simp_all add: mult_left_le_one_le)
    then show ?thesis using c by (simp add: bright_rgb_def px_def distrib_right)
  qed
  have "\<forall>row\<in>set buf. \<forall>p\<in>set row. bright_rgb p"
    unfolding buf_def using bright by auto
  moreover have "map length buf = replicate (nat n) (nat n)"
    using shape by (simp add: buf_def comp_def)
  ultimately show ?thesis using full noise tex by blast
qed

lemma add_veins_float_positive:
  assumes unit: "unit_draws draws"
    and tr: "fst thickness_range \<le> snd thickness_range"
    and col: "positive_color color"
    and draw: "draw_blends (draw_line pil RGBA)"
    and bright: "\<forall>row\<in>set buf. \<forall>p\<in>set row. bright_rgb p"
  shows "\<exists>img' k'. add_veins pil draws k (Float64 (map (map (map_rgb Fin)) buf)) color num_veins thickness_range
             = Some (Inr (UInt8 img', k'))
           \<and> positive img' \<and> map length img' = map length buf"
proof -
  let ?a = "Float64 (map (map (map_rgb Fin)) buf)"
  let ?img = "map (map (map_rgb quantize)) buf"
  obtain h w where hw: "shape ?a = (h, w)" by (cases "shape ?a")
  from shape_nonneg [OF hw] have h: "0 \<le> h" and w: "0 \<le> w" by simp_all
  have "\<forall>row\<in>set buf. \<forall>p\<in>set row. unit_rgb p" using bright bright_unit by blast
  from astype_quantize [OF this] have cast: "astype_uint8 (times255 ?a) = Inr ?img" .
  have pos: "positive ?img"
    using bright
    by (fastforce simp: positive_def bright_rgb_def map_rgb_def quantize_nonzero)
  from veins_loop_positive [OF unit w h tr col draw pos, where n = "nat num_veins" and k = k]
  obtain img' k' where "veins_loop (draw_line pil RGBA) draws color thickness_range w h (nat num_veins) ?img k
      = Some (Inr (img', k'))" and "positive img'" and "map length img' = map length ?img"
    by blast
  then show ?thesis
    using hw cast by (simp add: add_veins_def Let_def comp_def del: times255.simps astype_uint8.simps shape.simps)
qed

lemma add_veins_uint8_positive:
  assumes unit: "unit_draws draws"
    and tr: "fst thickness_range \<le> snd thickness_range"
    and col: "positive_color color"
    and draw: "draw_blends (draw_line pil RGBA)"
    and pos: "positive img"
  shows "\<exists>img' k'. add_veins pil draws k (UInt8 img) color num_veins thickness_range
             = Some (Inr (UInt8 img', k'))
           \<and> positive img' \<and> map length img' = map length img"
proof -
  let ?img = "map (map (map_rgb (\<lambda>v. v * 255))) img"
  obtain h w where hw: "shape (UInt8 img) = (h, w)" by (cases "shape (UInt8 img)")
  from shape_nonneg [OF hw] have h: "0 \<le> h" and w: "0 \<le> w" by simp_all
  have pos': "positive ?img"
    using pos by (fastforce simp: positive_def map_rgb_def times255_nonzero)
  from veins_loop_positive [OF unit w h tr col draw pos', where n = "nat num_veins" and k = k]
  obtain img' k' where "veins_loop (draw_line pil RGBA) draws color thickness_range w h (nat num_veins) ?img k
      = Some (Inr (img', k'))" and "positive img'" and "map length img' = map length ?img"
    by blast
  then show ?thesis
    using hw by (simp add: add_veins_def Let_def comp_def del: shape.simps)
qed

lemma clip_positive_white:
  assumes "positive img"
  shows "astype_uint8 (times255 (np_clip01 (UInt8 img))) = Inr (map (map (\<lambda>p. (255, 255, 255))) img)"
proof -
  have m: "min (max v 0) 1 * 255 = 255" if "v \<noteq> 0" for v :: "8 word"
    using that by (rule clip01_nonzero)
  have "map_rgb (\<lambda>v. v * 255) (map_rgb (\<lambda>v. min (max v 0) 1) p) = (255, 255, 255)"
    if "r \<in> set img" "p \<in> set r" for r p
  proof -
    obtain a b c where p: "p = (a, b, c)" by (cases p)
    have "a \<noteq> 0 \<and> b \<noteq> 0 \<and> c \<noteq> 0"
      using assms that unfolding positive_def p by fastforce
    then have "min (max a 0) 1 * 255 = 255" "min (max b 0) 1 * 255 = 255"
      "min (max c 0) 1 * 255 = 255" using m by blast+
    then show ?thesis unfolding p map_rgb_def by (simp only: prod.case)
  qed
  then show ?thesis by (simp add: comp_def)
qed

lemma two_layers_white:
  assumes unit: "unit_draws draws"
    and pil: "pil_blends pil"
    and tr1: "fst tr1 \<le> snd tr1" and col1: "positive_color col1"
    and tr2: "fst tr2 \<le> snd tr2" and col2: "positive_color col2"
    and bright: "\<forall>row\<in>set buf. \<forall>p\<in>set row. bright_rgb p"
    and shape: "map length buf = replicate (nat n) (nat n)"
  shows "\<exists>base1 k1 base2 k2.
           add_veins pil draws k (Float64 (map (map (map_rgb Fin)) buf)) col1 n1 tr1
             = Some (Inr (base1, k1))
         \<and> add_veins pil draws k1 base1 col2 n2 tr2 = Some (Inr (base2, k2))
         \<and> astype_uint8 (times255 (np_clip01 base2)) = Inr (white n)"
proof -
  have draw: "draw_blends (draw_line pil RGBA)"
    using pil unfolding pil_blends_def by blast
  from add_veins_float_positive [OF unit tr1 col1 draw bright, where k = k and num_veins = n1]
  obtain img1 k1 where
    a1: "add_veins pil draws k (Float64 (map (map (map_rgb Fin)) buf)) col1 n1 tr1
           = Some (Inr (UInt8 img1, k1))"
    and p1: "positive img1" and s1: "map length img1 = map length buf" by blast
  from add_veins_uint8_positive [OF unit tr2 col2 draw p1, where k = k1 and num_veins = n2]
  obtain img2 k2 where
    a2: "add_veins pil draws k1 (UInt8 img1) col2 n2 tr2 = Some (Inr (UInt8 img2, k2))"
    and p2: "positive img2" and s2: "map length img2 = map length img1" by blast
  have "map length img2 = replicate (nat n) (nat n)" using s1 s2 shape by simp
  from map_const_grid [OF this]
  have "astype_uint8 (times255 (np_clip01 (UInt8 img2))) = Inr (white n)"
    unfolding clip_positive_white [OF p2] white_def by simp
  with a1 a2 show ?thesis by blast
qed

lemma concat_replicate_replicate:
  "concat (replicate m (replicate k x)) = replicate (m * k) x"
  by (induction m) (simp_all add: replicate_add)

lemma mean_brightness_white: "0 < n \<Longrightarrow> mean_brightness (white n) = 255"
proof -
  assume n: "0 < n"
  have "0 < nat n * nat n" using n by simp
  then show ?thesis
    unfolding mean_brightness_def white_def concat_replicate_replicate
    by (simp add: sum_list_replicate)
qed

lemma flood_pil_blends: "pil_blends flood_pil"
proof -
  have nz: "word_of_int r \<noteq> (0::8 word)" if "0 < r" "r < 256" for r :: int
    using that by (simp add: word_of_int_eq_0_iff zdvd_not_zless)
  have "positive (draw_line flood_pil RGBA img s)" if "positive_fill s" for img s
  proof -
    obtain r g b a where f: "fill s = (r, g, b, a)" by (cases "fill s")
    then show ?thesis
      using that nz by (auto simp: flood_pil_def positive_def positive_fill_def)
  qed
  moreover have "map length (draw_line flood_pil RGBA img s) = map length img" for img s
    by (cases "fill s") (simp add: flood_pil_def comp_def)
  ultimately show ?thesis
    by (simp add: pil_blends_def draw_blends_def) (simp add: flood_pil_def)
qed

lemma demo_spread_2: "np_min (six_octaves demo_numpy 2 2) \<noteq> np_max (six_octaves demo_numpy 2 2)"
  by code_simp

text \<open>
  Claim C9 is what the docstrings of the presets promise, and the code breaks it.
  \<^verbatim>\<open>add_veins\<close> returns the 8-bit array of the PIL image,
  with values from 0 to 255, and both presets treat it as the float buffer with values
  from 0 to 1 that they passed in: the second call multiplies the bytes by 255 modulo 256,
  and \<^verbatim>\<open>np.clip(base, 0, 1) * 255\<close> then turns every channel that is not 0 into 255.
  For numbers drawn from the unit interval, a PIL that blends, a positive size and a
  summed noise field that is not flat (as at size 256), Statuario and Grey Emperador are
  the same uniformly white image of mean brightness 255: the mean of Statuario is not
  greater than that of Grey Emperador, which shows nothing of its grey base.
\<close>

theorem presets_both_white:
  assumes unit1: "unit_draws draws1" and unit2: "unit_draws draws2"
    and pil: "pil_blends pil"
    and size: "0 < size'"
    and spread: "np_min (six_octaves np size' size') \<noteq> np_max (six_octaves np size' size')"
  shows "\<exists>statuario grey_emperador k1' k2'.
           generate_statuario np pil draws1 st1 k1 size'
             = Some (Inr (statuario, octave_state np size' size' 5, k1'))
         \<and> generate_grey_emperador np pil draws2 st2 k2 size'
             = Some (Inr (grey_emperador, octave_state np size' size' 5, k2'))
         \<and> statuario = white size' \<and> grey_emperador = white size'
         \<and> mean_brightness statuario = 255 \<and> mean_brightness grey_emperador = 255"
proof -
  have n: "0 \<le> size'" using size by simp
  have blur: "gaussian_blur pil (white size') radius = white size'" for radius
    using pil unfolding pil_blends_def by blast
  have s: "\<exists>k'. generate_statuario np pil draws1 st1 k1 size'
             = Some (Inr (white size', octave_state np size' size' 5, k'))"
  proof -
    from preset_base [OF n spread, of "0.02" "0.97" "0.97" "0.98" st1 300]
    obtain base noise buf where
      "np_full_rgb size' (0.97, 0.97, 0.98) = Inr base"
      "create_seamless_noise np st1 size' size' 300 = Inr (noise, octave_state np size' size' 5)"
      "add_texture base noise 0.02 = Inr (map (map (map_rgb Fin)) buf)"
      and bright: "\<forall>row\<in>set buf. \<forall>p\<in>set row. bright_rgb p"
      and shape: "map length buf = replicate (nat size') (nat size')"
      by auto
    moreover from two_layers_white [OF unit1 pil _ _ _ _ bright shape,
        where ?tr1.0 = "(3, 9)" and ?col1.0 = "(140, 140, 145)" and ?tr2.0 = "(1, 5)"
          and ?col2.0 = "(170, 170, 175)" and k = k1 and ?n1.0 = 18 and ?n2.0 = 12]
    obtain base1 k1' base2 k2' where
      "add_veins pil draws1 k1 (Float64 (map (map (map_rgb Fin)) buf))
         (140, 140, 145) 18 (3, 9) = Some (Inr (base1, k1'))"
      "add_veins pil draws1 k1' base1 (170, 170, 175) 12 (1, 5) = Some (Inr (base2, k2'))"
      "astype_uint8 (times255 (np_clip01 base2)) = Inr (white size')"
      by (auto simp: positive_color_def)
    ultimately show ?thesis
      by (simp add: generate_statuario_def blur)
  qed
  have g: "\<exists>k'. generate_grey_emperador np pil draws2 st2 k2 size'
             = Some (Inr (white size', octave_state np size' size' 5, k'))"
  proof -
    from preset_base [OF n spread, of "0.08" "0.75" "0.74" "0.73" st2 180]
    obtain base noise buf where
      "np_full_rgb size' (0.75, 0.74, 0.73) = Inr base"
      "create_seamless_noise np st2 size' size' 180 = Inr (noise, octave_state np size' size' 5)"
      "add_texture base noise 0.08 = Inr (map (map (map_rgb Fin)) buf)"
      and bright: "\<forall>row\<in>set buf. \<forall>p\<in>set row. bright_rgb p"
      and shape: "map length buf = replicate (nat size') (nat size')"
      by auto
    moreover from two_layers_white [OF unit2 pil _ _ _ _ bright shape,
        where ?tr1.0 = "(2, 7)" and ?col1.0 = "(100, 100, 105)" and ?tr2.0 = "(1, 4)"
          and ?col2.0 = "(200, 198, 195)" and k = k2 and ?n1.0 = 20 and ?n2.0 = 15]
    obtain base1 k1' base2 k2' where
      "add_veins pil draws2 k2 (Float64 (map (map (map_rgb Fin)) buf))
         (100, 100, 105) 20 (2, 7) = Some (Inr (base1, k1'))"
      "add_veins pil draws2 k1' base1 (200, 198, 195) 15 (1, 4) = Some (Inr (base2, k2'))"
      "astype_uint8 (times255 (np_clip01 base2)) = Inr (white size')"
      by (auto simp: positive_color_def)
    ultimately show ?thesis
      by (simp add: generate_grey_emperador_def blur)
  qed
  from s g mean_brightness_white [OF size] show ?thesis by auto
qed

theorem presets_both_white_witness:
  "\<exists>statuario grey_emperador k1' k2'.
           generate_statuario demo_numpy flood_pil half_draws 0 0 2
             = Some (Inr (statuario, octave_state demo_numpy 2 2 5, k1'))
         \<and> generate_grey_emperador demo_numpy flood_pil half_draws 0 0 2
             = Some (Inr (grey_emperador, octave_state demo_numpy 2 2 5, k2'))
         \<and> statuario = white 2 \<and> grey_emperador = white 2
         \<and> mean_brightness statuario = 255 \<and> mean_brightness grey_emperador = 255"
  by (rule presets_both_white [OF half_unit half_unit flood_pil_blends _ demo_spread_2]) simp

end
